theory Spec2Isabelle
  imports Main "HOL-Library.Monad_Syntax"
begin

section \<open>RollCall: RFID attendance tracking on an ESP32\<close>

text \<open>
  A shallow embedding of \<^verbatim>\<open>RollCall.ino\<close>: the student name table, the attendance update
  (\<^verbatim>\<open>updateAttendance\<close>), the card handler (\<^verbatim>\<open>handleNewCard\<close>) and the main
  \<^verbatim>\<open>loop\<close> with its card-presence flag. The sketch talks to three collaborators that
  are not part of it: the serial port, the MFRC522 reader and the Google Sheets client.
  Each of them is a field of the state that records what the sketch did to it, and what
  a collaborator answers in one pass of \<^verbatim>\<open>loop\<close> is an input of that pass.
\<close>

subsection \<open>Configuration\<close>

definition MAX_STUDENTS :: int where
  "MAX_STUDENTS = 5"

subsection \<open>Machine integers and the Arduino String conversions\<close>

text \<open>
  \<^verbatim>\<open>int\<close> and \<^verbatim>\<open>long\<close> are both 32 bits wide on the ESP32. Values are kept as
  mathematical integers and the result of an addition is brought back into the signed
  32-bit range: this is the two's complement wrap-around of the compiled code (the C++
  standard leaves signed overflow undefined).
\<close>

definition INT_MAX :: int where
  "INT_MAX = 2147483647"

definition INT_MIN :: int where
  "INT_MIN = - 2147483648"

definition int32 :: "int \<Rightarrow> int" where
  "int32 x = (x + 2147483648) mod 4294967296 - 2147483648"

text \<open>
  \<^verbatim>\<open>String(int)\<close> prints a number in base 10, with a minus sign in front of a negative
  one.
\<close>

definition digit_char :: "nat \<Rightarrow> char" where
  "digit_char d = ''0123456789'' ! d"

fun decimal_digits :: "nat \<Rightarrow> string" where
  "decimal_digits n =
     (if n < 10 then [digit_char n]
      else decimal_digits (n div 10) @ [digit_char (n mod 10)])"

declare decimal_digits.simps [simp del]

definition String :: "int \<Rightarrow> string" where
  "String n = (if n < 0 then CHR ''-'' # decimal_digits (nat (- n)) else decimal_digits (nat n))"

text \<open>
  \<^verbatim>\<open>String::toInt\<close> is \<^verbatim>\<open>atol\<close> on the buffer: leading white space is skipped, an
  optional sign is read, then the longest run of decimal digits; what follows is ignored.
  With no digit at all the result is 0, and a value outside the range of \<^verbatim>\<open>long\<close>
  is clamped to its nearest end (the C library's \<^verbatim>\<open>strtol\<close>).
\<close>

definition isspace :: "char \<Rightarrow> bool" where
  "isspace c = (c = CHR '' '' \<or> (9 :: nat) \<le> of_char c \<and> of_char c \<le> (13 :: nat))"

definition isdigit :: "char \<Rightarrow> bool" where
  "isdigit c = ((48 :: nat) \<le> of_char c \<and> of_char c \<le> (57 :: nat))"

definition digit_val :: "char \<Rightarrow> int" where
  "digit_val c = int (of_char c) - 48"

fun decimal_value :: "int \<Rightarrow> string \<Rightarrow> int" where
  "decimal_value acc [] = acc"
| "decimal_value acc (c # cs) = decimal_value (10 * acc + digit_val c) cs"

definition atol_sign :: "string \<Rightarrow> bool \<times> string" where
  "atol_sign s =
     (case dropWhile isspace s of
        [] \<Rightarrow> (False, [])
      | c # cs \<Rightarrow>
          if c = CHR ''-'' then (True, cs)
          else if c = CHR ''+'' then (False, cs)
          else (False, c # cs))"

definition atol_digits :: "string \<Rightarrow> string" where
  "atol_digits s = takeWhile isdigit (snd (atol_sign s))"

definition toInt :: "string \<Rightarrow> int" where
  "toInt s =
     (let v = decimal_value 0 (atol_digits s);
          r = (if fst (atol_sign s) then - v else v)
      in max INT_MIN (min INT_MAX r))"

subsection \<open>The student database\<close>

definition firstNames :: "string list" where
  "firstNames = [
    ''Emma'', ''Liam'', ''Olivia'', ''Noah'', ''Ava'', ''Ethan'', ''Isabella'', ''Mason'',
    ''Sophia'', ''Lucas'', ''Mia'', ''Oliver'', ''Charlotte'', ''James'', ''Amelia'',
    ''Benjamin'', ''Evelyn'', ''William'', ''Abigail'', ''Henry'', ''Emily'',
    ''Alexander'', ''Elizabeth'', ''Michael'', ''Avery'', ''Daniel'', ''Sofia'',
    ''Matthew'', ''Ella'', ''Joseph'', ''Victoria'', ''David'', ''Grace'', ''Andrew'',
    ''Chloe'', ''Jack'', ''Scarlett'', ''Owen'', ''Aria'', ''Luke'', ''Hannah'',
    ''Sebastian'', ''Zoe'', ''Christopher'', ''Lily'', ''Julian'', ''Madison'',
    ''Samuel'', ''Layla'', ''John'', ''Nora'', ''Isaac'', ''Riley'', ''Nathan'',
    ''Hazel'', ''Thomas'', ''Lucy'', ''Charles'', ''Aurora'', ''Caleb'', ''Bella'',
    ''Joshua'', ''Anna'', ''Ryan'', ''Claire'', ''Christian'', ''Violet'', ''Carter'',
    ''Eleanor'', ''Jonathan'', ''Audrey'', ''Dylan'', ''Alice'', ''Miles'', ''Savannah'',
    ''Gabriel'', ''Maya'', ''Adrian'', ''Sarah'', ''Leo'', ''Eva'', ''Anthony'',
    ''Natalie'', ''Adam'', ''Ruby'', ''Nicholas'', ''Skylar'', ''Austin'', ''Naomi'',
    ''Ian'', ''Julia'', ''Robert'', ''Stella'', ''Aaron'', ''Katherine'', ''Blake'',
    ''Eva'', ''Cole'', ''Morgan'', ''Max'']"

definition lastNames :: "string list" where
  "lastNames = [
    ''Smith'', ''Johnson'', ''Williams'', ''Brown'', ''Jones'', ''Garcia'', ''Miller'',
    ''Davis'', ''Rodriguez'', ''Martinez'', ''Hernandez'', ''Lopez'', ''Gonzalez'',
    ''Wilson'', ''Anderson'', ''Thomas'', ''Taylor'', ''Moore'', ''Jackson'', ''Martin'',
    ''Lee'', ''Perez'', ''Thompson'', ''White'', ''Harris'', ''Sanchez'', ''Clark'',
    ''Ramirez'', ''Lewis'', ''Robinson'', ''Walker'', ''Young'', ''Allen'', ''King'',
    ''Wright'', ''Scott'', ''Torres'', ''Nguyen'', ''Hill'', ''Flores'', ''Green'',
    ''Adams'', ''Nelson'', ''Baker'', ''Hall'', ''Rivera'', ''Campbell'', ''Mitchell'',
    ''Carter'', ''Roberts'', ''Turner'', ''Phillips'', ''Evans'', ''Morris'', ''Morgan'',
    ''Cooper'', ''Peterson'', ''Rogers'', ''Reed'', ''Cook'', ''Bailey'', ''Bell'',
    ''Murphy'', ''Morgan'', ''Bennett'', ''Wood'', ''Brooks'', ''Kelly'', ''Sanders'',
    ''Price'', ''Barnes'', ''Ross'', ''Watson'', ''Coleman'', ''Jenkins'', ''Perry'',
    ''Powell'', ''Russell'', ''Howard'', ''Cox'', ''Ward'', ''Foster'', ''Gray'',
    ''Brooks'', ''Fisher'', ''Jordan'', ''Owen'', ''Reynolds'', ''Stevens'', ''Harrison'',
    ''Ruiz'', ''Kennedy'', ''Wells'', ''Burns'', ''Stone'', ''Fox'', ''Wallace'',
    ''Woods'', ''Cole'', ''West'']"

text \<open>
  Reading a C++ array outside its bounds is undefined behaviour: a read is a value of
  \<open>option\<close>, and \<open>None\<close> is the out-of-range read.
\<close>

definition subscript :: "'a list \<Rightarrow> int \<Rightarrow> 'a option" where
  "subscript xs i = (if 0 \<le> i \<and> i < int (length xs) then Some (xs ! nat i) else None)"

definition getFullName :: "int \<Rightarrow> string option" where
  "getFullName index =
     (if index \<ge> 0 \<and> index < 100 then
        do {
          firstName \<leftarrow> subscript firstNames index;
          lastName \<leftarrow> subscript lastNames index;
          Some (firstName @ '' '' @ lastName)
        }
      else Some ''Invalid Student'')"

subsection \<open>The state of the sketch and of its collaborators\<close>

text \<open>
  A request the sketch sends to the spreadsheet: \<^verbatim>\<open>GSheet.values.get\<close> on a range, or
  \<^verbatim>\<open>GSheet.values.update\<close> of a range with a value. All requests go to the one
  spreadsheet of \<^verbatim>\<open>Credentials::SPREADSHEET_ID\<close>.
\<close>

datatype request = Get string | Update string string

text \<open>A call to the MFRC522 reader.\<close>

datatype reader_call = IsNewCardPresent | ReadCardSerial | HaltA | StopCrypto1

text \<open>
  The two globals of the sketch (\<^verbatim>\<open>isSystemInitialized\<close> and the function-static
  \<^verbatim>\<open>cardPresent\<close>), the remote spreadsheet (\<open>sheet\<close>: the text of each cell, by its
  range in A1 notation), and the history of what the sketch did: the requests it sent,
  the reader calls it made, the lines it printed on the serial port (without their line
  ends) and the delays it waited, in milliseconds.
\<close>

record system =
  isSystemInitialized :: bool
  cardPresent :: bool
  sheet :: "string \<rightharpoonup> string"
  requests :: "request list"
  reader :: "reader_call list"
  serial :: "string list"
  delays :: "nat list"

text \<open>
  What the collaborators answer during one pass of \<^verbatim>\<open>loop\<close>: whether
  \<^verbatim>\<open>GSheet.ready()\<close> holds, what the reader says to \<^verbatim>\<open>PICC_IsNewCardPresent\<close> and
  \<^verbatim>\<open>PICC_ReadCardSerial\<close>, the number the generator behind \<^verbatim>\<open>random\<close> produces,
  and whether the network lets the read and the write of the cell through.
\<close>

record world =
  ready :: bool
  newCardPresent :: bool
  cardSerialRead :: bool
  generator :: nat
  getSucceeds :: bool
  updateSucceeds :: bool

definition Serial_println :: "string \<Rightarrow> system \<Rightarrow> system" where
  "Serial_println line s = s\<lparr>serial := serial s @ [line]\<rparr>"

definition delay :: "nat \<Rightarrow> system \<Rightarrow> system" where
  "delay ms s = s\<lparr>delays := delays s @ [ms]\<rparr>"

definition PICC_IsNewCardPresent :: "world \<Rightarrow> system \<Rightarrow> bool \<times> system" where
  "PICC_IsNewCardPresent w s = (newCardPresent w, s\<lparr>reader := reader s @ [IsNewCardPresent]\<rparr>)"

definition PICC_ReadCardSerial :: "world \<Rightarrow> system \<Rightarrow> bool \<times> system" where
  "PICC_ReadCardSerial w s = (cardSerialRead w, s\<lparr>reader := reader s @ [ReadCardSerial]\<rparr>)"

definition PICC_HaltA :: "system \<Rightarrow> system" where
  "PICC_HaltA s = s\<lparr>reader := reader s @ [HaltA]\<rparr>"

definition PCD_StopCrypto1 :: "system \<Rightarrow> system" where
  "PCD_StopCrypto1 s = s\<lparr>reader := reader s @ [StopCrypto1]\<rparr>"

text \<open>
  Arduino's \<^verbatim>\<open>random(howbig)\<close>: 0 when \<^verbatim>\<open>howbig\<close> is 0, otherwise the remainder of
  the generator's (non-negative) output by the size of \<^verbatim>\<open>howbig\<close>. The sketch calls it
  with the positive bound \<^verbatim>\<open>Config::MAX_STUDENTS\<close> only.
\<close>

definition random_long :: "nat \<Rightarrow> int \<Rightarrow> int" where
  "random_long g howbig = (if howbig = 0 then 0 else int g mod \<bar>howbig\<bar>)"

text \<open>
  Modelled from the spec: the remote row store is a service outside the sketch. A read
  of a range either fails or returns the cell as the store holds it (an empty cell has
  no \<^verbatim>\<open>values/[0]/[0]\<close> entry); a write either fails and leaves the store as it is, or
  succeeds and replaces the cell. Both are recorded as requests, whatever their outcome.
\<close>

definition values_get :: "bool \<Rightarrow> string \<Rightarrow> system \<Rightarrow> string option option \<times> system" where
  "values_get ok rng s =
     (if ok then Some (sheet s rng) else None, s\<lparr>requests := requests s @ [Get rng]\<rparr>)"

definition values_update :: "bool \<Rightarrow> string \<Rightarrow> string \<Rightarrow> system \<Rightarrow> bool \<times> system" where
  "values_update ok rng v s =
     (ok, s\<lparr>sheet := (if ok then (sheet s)(rng \<mapsto> v) else sheet s),
            requests := requests s @ [Update rng v]\<rparr>)"

subsection \<open>Attendance management\<close>

definition cellRange :: "int \<Rightarrow> string" where
  "cellRange studentIndex = ''Sheet1!C'' @ String (int32 (studentIndex + 2))"

text \<open>
  \<^verbatim>\<open>currentCount\<close> after the read: 0 unless the read succeeded and the reply has a
  value at \<^verbatim>\<open>values/[0]/[0]\<close>, whose text \<^verbatim>\<open>toInt\<close> then converts.
\<close>

definition currentCount :: "string option option \<Rightarrow> int" where
  "currentCount readData =
     (case readData of
        None \<Rightarrow> 0
      | Some None \<Rightarrow> 0
      | Some (Some stringValue) \<Rightarrow> toInt stringValue)"

definition updateAttendance :: "world \<Rightarrow> int \<Rightarrow> system \<Rightarrow> system option" where
  "updateAttendance w studentIndex s =
     (if studentIndex < 0 \<or> studentIndex \<ge> MAX_STUDENTS then
        Some (Serial_println ''Invalid student index'' s)
      else
        let (readData, s1) = values_get (getSucceeds w) (cellRange studentIndex) s;
            count = currentCount readData;
            (updateSuccess, s2) =
              values_update (updateSucceeds w) (cellRange studentIndex) (String (int32 (count + 1))) s1
        in if updateSuccess then
             do {
               name \<leftarrow> getFullName studentIndex;
               Some (Serial_println
                 (''Updated attendance for '' @ name @ '': '' @ String (int32 (count + 1))) s2)
             }
           else Some (Serial_println ''Failed to update attendance'' s2))"

definition handleNewCard :: "world \<Rightarrow> system \<Rightarrow> system option" where
  "handleNewCard w s =
     (let s1 = Serial_println ''RFID card detected!'' s;
          randomStudent = random_long (generator w) MAX_STUDENTS
      in updateAttendance w randomStudent s1)"

subsection \<open>The main loop\<close>

text \<open>
  What one pass of \<^verbatim>\<open>loop\<close> did with the card: it took the branch that handles a new
  card, the branch that notes its removal, or neither.
\<close>

datatype event = Arrived | Removed | NoEvent

text \<open>
  The two conditions are evaluated left to right and stop at the first false operand, as
  \<^verbatim>\<open>&&\<close> does, so the reader is asked only where the sketch asks it.
\<close>

definition loop :: "world \<Rightarrow> system \<Rightarrow> (event \<times> system) option" where
  "loop w s =
     (if \<not> isSystemInitialized s then Some (NoEvent, s)
      else if \<not> ready w then
        Some (NoEvent, delay 1000 (Serial_println ''Lost connection to Google Sheets!'' s))
      else
        let (newCard, s1) =
              (if \<not> cardPresent s then
                 let (present, sa) = PICC_IsNewCardPresent w s
                 in if present then PICC_ReadCardSerial w sa else (False, sa)
               else (False, s))
        in if newCard then
             do {
               s2 \<leftarrow> handleNewCard w (s1\<lparr>cardPresent := True\<rparr>);
               Some (Arrived,
                 delay 100 (delay 1000 (PCD_StopCrypto1 (PICC_HaltA
                   (Serial_println ''Please remove the card...'' s2)))))
             }
           else
             let (gone, s3) =
                   (if cardPresent s1 then
                      let (present, sb) = PICC_IsNewCardPresent w s1 in (\<not> present, sb)
                    else (False, s1))
             in if gone then
                  Some (Removed,
                    delay 100 (delay 500 (Serial_println ''Card removed - Ready for next scan''
                      (s3\<lparr>cardPresent := False\<rparr>))))
                else Some (NoEvent, delay 100 s3))"

text \<open>The Arduino core calls \<^verbatim>\<open>loop\<close> again and again: one pass for each element of the list.\<close>

fun run :: "world list \<Rightarrow> system \<Rightarrow> (event list \<times> system) option" where
  "run [] s = Some ([], s)"
| "run (w # ws) s =
     (case loop w s of
        None \<Rightarrow> None
      | Some (ev, s1) \<Rightarrow>
          (case run ws s1 of
             None \<Rightarrow> None
           | Some (evs, s2) \<Rightarrow> Some (ev # evs, s2)))"

subsection \<open>Sequences of calls, and the count a cell stands for\<close>

text \<open>
  The count that \<^verbatim>\<open>updateAttendance\<close> reads from a student's cell when the read
  succeeds: this is the attendance count the store holds for the student.
\<close>

definition storedCount :: "system \<Rightarrow> int \<Rightarrow> int" where
  "storedCount s studentIndex = currentCount (Some (sheet s (cellRange studentIndex)))"

text \<open>A sequence of calls of \<^verbatim>\<open>updateAttendance\<close>, each with the answers of the network to it.\<close>

fun increments :: "(world \<times> int) list \<Rightarrow> system \<Rightarrow> system option" where
  "increments [] s = Some s"
| "increments ((w, studentIndex) # calls) s =
     (case updateAttendance w studentIndex s of
        None \<Rightarrow> None
      | Some s1 \<Rightarrow> increments calls s1)"

subsection \<open>The presence debouncer of the specification\<close>

text \<open>
  The transition table of the specification's debouncer, on the flag alone: from absent,
  a card that is present and whose serial is read arrives; from present, a poll that
  finds no card removes it; every other poll changes nothing. It is compared with
  \<^verbatim>\<open>loop\<close> below.
\<close>

definition Debouncer_poll :: "bool \<Rightarrow> world \<Rightarrow> event \<times> bool" where
  "Debouncer_poll present w =
     (if \<not> present \<and> newCardPresent w \<and> cardSerialRead w then (Arrived, True)
      else if present \<and> \<not> newCardPresent w then (Removed, False)
      else (NoEvent, present))"

fun Debouncer_run :: "bool \<Rightarrow> world list \<Rightarrow> event list \<times> bool" where
  "Debouncer_run present [] = ([], present)"
| "Debouncer_run present (w # ws) =
     (let (ev, p1) = Debouncer_poll present w;
          (evs, p2) = Debouncer_run p1 ws
      in (ev # evs, p2))"

subsection \<open>Example states\<close>

text \<open>
  The system as \<^verbatim>\<open>setup\<close> leaves it: initialised, no card, the header in row 1 and
  the five students in rows 2 to 6 with a count of 0.
\<close>

definition classroom :: system where
  "classroom =
     \<lparr>isSystemInitialized = True, cardPresent = False,
      sheet = [''Sheet1!C1'' \<mapsto> ''Attendance'', ''Sheet1!C2'' \<mapsto> ''0'', ''Sheet1!C3'' \<mapsto> ''0'',
               ''Sheet1!C4'' \<mapsto> ''0'', ''Sheet1!C5'' \<mapsto> ''0'', ''Sheet1!C6'' \<mapsto> ''0''],
      requests = [], reader = [], serial = [], delays = []\<rparr>"

text \<open>The same with a given text in the cell of student 2.\<close>

definition classroom_with :: "string \<Rightarrow> system" where
  "classroom_with v = classroom\<lparr>sheet := (sheet classroom)(''Sheet1!C4'' \<mapsto> v)\<rparr>"

text \<open>
  A pass in which everything works: the service is ready, a card is present and read,
  the generator yields 12 (student 2 of 5) and both requests go through.
\<close>

definition online :: world where
  "online =
     \<lparr>ready = True, newCardPresent = True, cardSerialRead = True, generator = 12,
      getSucceeds = True, updateSucceeds = True\<rparr>"

section \<open>Properties\<close>

subsection \<open>Integers and strings\<close>

lemma int32_id: "INT_MIN \<le> x \<Longrightarrow> x \<le> INT_MAX \<Longrightarrow> int32 x = x"
  by (simp add: int32_def INT_MIN_def INT_MAX_def)

lemma digit_cases:
  assumes "d < (10::nat)"
  shows "d = 0 \<or> d = 1 \<or> d = 2 \<or> d = 3 \<or> d = 4 \<or> d = 5 \<or> d = 6 \<or> d = 7 \<or> d = 8 \<or> d = 9"
  using assms by arith

lemma digit_char_isdigit: "d < 10 \<Longrightarrow> isdigit (digit_char d)"
  using digit_cases [of d] by (auto simp: digit_char_def isdigit_def)

lemma digit_char_val: "d < 10 \<Longrightarrow> digit_val (digit_char d) = int d"
  using digit_cases [of d] by (auto simp: digit_char_def digit_val_def)

lemma isdigit_not_space: "isdigit c \<Longrightarrow> \<not> isspace c"
  by (auto simp: isdigit_def isspace_def)

lemma isdigit_not_sign: "isdigit c \<Longrightarrow> c \<noteq> CHR ''-'' \<and> c \<noteq> CHR ''+''"
  by (auto simp: isdigit_def)

lemma decimal_digits_isdigit: "c \<in> set (decimal_digits n) \<Longrightarrow> isdigit c"
proof (induction n arbitrary: c rule: decimal_digits.induct)
  case (1 n)
  show ?case
  proof (cases "n < 10")
    case True
    with "1.prems" show ?thesis
      by (simp add: decimal_digits.simps [of n] digit_char_isdigit)
  next
    case False
    with "1.prems" "1.IH" show ?thesis
      by (auto simp: decimal_digits.simps [of n] digit_char_isdigit)
  qed
qed

lemma decimal_digits_not_Nil: "decimal_digits n \<noteq> []"
  by (simp add: decimal_digits.simps [of n])

lemma decimal_value_snoc:
  "decimal_value acc (cs @ [c]) = 10 * decimal_value acc cs + digit_val c"
  by (induction cs arbitrary: acc) simp_all

text \<open>Reading back the digits of a number gives the number.\<close>

lemma decimal_value_digits: "decimal_value 0 (decimal_digits n) = int n"
proof (induction n rule: decimal_digits.induct)
  case (1 n)
  show ?case
  proof (cases "n < 10")
    case True
    then show ?thesis
      by (simp add: decimal_digits.simps [of n] digit_char_val)
  next
    case False
    with "1.IH" have "decimal_value 0 (decimal_digits (n div 10)) = int (n div 10)"
      by simp
    moreover have "10 * int (n div 10) + int (n mod 10) = int n"
      by presburger
    ultimately show ?thesis
      using False by (simp add: decimal_digits.simps [of n] decimal_value_snoc digit_char_val)
  qed
qed

lemma atol_sign_digits: "atol_sign (decimal_digits n) = (False, decimal_digits n)"
proof (cases "decimal_digits n")
  case Nil
  then show ?thesis by (simp add: decimal_digits_not_Nil)
next
  case (Cons c cs)
  then have "isdigit c" using decimal_digits_isdigit [of c n] by simp
  with Cons show ?thesis
    using isdigit_not_space [of c] isdigit_not_sign [of c]
    by (simp add: atol_sign_def)
qed

lemma atol_sign_minus_digits:
  "atol_sign (CHR ''-'' # decimal_digits n) = (True, decimal_digits n)"
  by (simp add: atol_sign_def isspace_def)

lemma takeWhile_digits: "takeWhile isdigit (decimal_digits n) = decimal_digits n"
  by (simp add: decimal_digits_isdigit)

text \<open>\<^verbatim>\<open>toInt\<close> undoes \<^verbatim>\<open>String(int)\<close> on every 32-bit value.\<close>

lemma toInt_String: "INT_MIN \<le> n \<Longrightarrow> n \<le> INT_MAX \<Longrightarrow> toInt (String n) = n"
  by (simp add: toInt_def String_def atol_digits_def atol_sign_digits atol_sign_minus_digits
      takeWhile_digits decimal_value_digits)

lemma toInt_range: "INT_MIN \<le> toInt v \<and> toInt v \<le> INT_MAX"
  by (simp add: toInt_def Let_def INT_MIN_def INT_MAX_def)

lemma toInt_no_digits: "atol_digits v = [] \<Longrightarrow> toInt v = 0"
  by (simp add: toInt_def INT_MIN_def INT_MAX_def)

subsection \<open>The name table\<close>

lemma length_firstNames: "length firstNames = 100"
  by (simp add: firstNames_def)

lemma length_lastNames: "length lastNames = 100"
  by (simp add: lastNames_def)

lemma getFullName_inside:
  "0 \<le> i \<Longrightarrow> i < 100 \<Longrightarrow> getFullName i = Some (firstNames ! nat i @ '' '' @ lastNames ! nat i)"
  by (simp add: getFullName_def subscript_def length_firstNames length_lastNames)

subsection \<open>One call of \<^verbatim>\<open>updateAttendance\<close>\<close>

lemma cellRange_valid:
  "0 \<le> i \<Longrightarrow> i < MAX_STUDENTS \<Longrightarrow> cellRange i = ''Sheet1!C'' @ String (i + 2)"
  by (simp add: cellRange_def MAX_STUDENTS_def int32_def add.commute)

text \<open>
  What a call with a valid index does, whatever the network answers: one read and one
  write of the student's cell, the new text in the cell when the write succeeds, and one
  line on the serial port.
\<close>

lemma updateAttendance_valid:
  assumes "0 \<le> i" and "i < MAX_STUDENTS"
  shows "updateAttendance w i s =
    Some (s\<lparr>sheet :=
               (if updateSucceeds w
                then (sheet s)(cellRange i \<mapsto>
                  String (int32 (currentCount (if getSucceeds w then Some (sheet s (cellRange i)) else None) + 1)))
                else sheet s),
            requests := requests s @
               [Get (cellRange i),
                Update (cellRange i)
                  (String (int32 (currentCount (if getSucceeds w then Some (sheet s (cellRange i)) else None) + 1)))],
            serial := serial s @
               [if updateSucceeds w
                then ''Updated attendance for '' @ firstNames ! nat i @ '' '' @ lastNames ! nat i @ '': '' @
                  String (int32 (currentCount (if getSucceeds w then Some (sheet s (cellRange i)) else None) + 1))
                else ''Failed to update attendance'']\<rparr>)"
proof -
  from assms have "getFullName i = Some (firstNames ! nat i @ '' '' @ lastNames ! nat i)"
    by (simp add: getFullName_inside MAX_STUDENTS_def)
  with assms show ?thesis
    by (simp add: updateAttendance_def values_get_def values_update_def Serial_println_def Let_def)
qed

subsection \<open>Claims about the name table\<close>

text \<open>
  C9: \<^verbatim>\<open>StudentDatabase::getFullName\<close> returns a name for every integer index and never
  reads outside the two tables. For an index from 0 to 99 the name is the first name at
  that index, a space and the last name at that index, and both reads are inside their
  table; for every other index it is \<open>Invalid Student\<close>, by the branch that reads no
  table.
\<close>

theorem getFullName_total:
  "getFullName index =
     Some (if 0 \<le> index \<and> index < 100
           then firstNames ! nat index @ '' '' @ lastNames ! nat index
           else ''Invalid Student'') \<and>
   (0 \<le> index \<and> index < 100 \<longrightarrow>
      subscript firstNames index = Some (firstNames ! nat index) \<and>
      subscript lastNames index = Some (lastNames ! nat index))"
  by (simp add: getFullName_def subscript_def length_firstNames length_lastNames)

theorem getFullName_total_witness:
  "getFullName 2 = Some ''Olivia Williams'' \<and>
   subscript firstNames 99 = Some ''Max'' \<and> subscript lastNames 99 = Some ''West'' \<and>
   getFullName 100 = Some ''Invalid Student'' \<and>
   getFullName (- 1) = Some ''Invalid Student''"
  using getFullName_total [of 2] getFullName_total [of 99] getFullName_total [of 100]
    getFullName_total [of "- 1"]
  by (simp add: firstNames_def lastNames_def)

subsection \<open>Claims about the attendance update\<close>

text \<open>
  C2: for every index outside \<open>[0, MAX_STUDENTS)\<close>, \<^verbatim>\<open>updateAttendance\<close> prints
  \<open>Invalid student index\<close> and does nothing else: no request is sent, the sheet and
  every other part of the state stay as they were.
\<close>

theorem updateAttendance_invalid_index:
  assumes "i < 0 \<or> MAX_STUDENTS \<le> i"
  shows "updateAttendance w i s = Some (s\<lparr>serial := serial s @ [''Invalid student index'']\<rparr>)"
  using assms by (auto simp: updateAttendance_def Serial_println_def)

theorem updateAttendance_invalid_index_witness:
  "((5::int) < 0 \<or> MAX_STUDENTS \<le> 5) \<and>
   updateAttendance online 5 classroom =
     Some (classroom\<lparr>serial := [''Invalid student index'']\<rparr>) \<and>
   updateAttendance online (- 1) classroom =
     Some (classroom\<lparr>serial := [''Invalid student index'']\<rparr>)"
  using updateAttendance_invalid_index [of 5 online classroom]
    updateAttendance_invalid_index [of "- 1" online classroom]
  by (simp add: MAX_STUDENTS_def classroom_def)

text \<open>
  C1, amended: for every index in \<open>[0, MAX_STUDENTS)\<close>, if the student's cell holds a
  text that reads as the count \<open>c\<close>, with \<open>c\<close> below the largest 32-bit integer
  2147483647, and both the read and the write succeed, then \<^verbatim>\<open>updateAttendance\<close>
  reports \<open>c + 1\<close> for that student and leaves the text of \<open>c + 1\<close> in the cell, which
  reads back as \<open>c + 1\<close>.
\<close>

theorem updateAttendance_increments:
  assumes "0 \<le> i" and "i < MAX_STUDENTS"
    and "getSucceeds w" and "updateSucceeds w"
    and "sheet s (cellRange i) = Some v" and "toInt v = c" and "c < INT_MAX"
  shows "updateAttendance w i s =
      Some (s\<lparr>sheet := (sheet s)(cellRange i \<mapsto> String (c + 1)),
              requests := requests s @
                [Get (cellRange i), Update (cellRange i) (String (c + 1))],
              serial := serial s @
                [''Updated attendance for '' @ firstNames ! nat i @ '' '' @ lastNames ! nat i @
                 '': '' @ String (c + 1)]\<rparr>) \<and>
    toInt (String (c + 1)) = c + 1"
proof -
  from assms(6) have "INT_MIN \<le> c" using toInt_range [of v] by simp
  with assms(7) have range: "INT_MIN \<le> c + 1" "c + 1 \<le> INT_MAX" by simp_all
  then have "int32 (c + 1) = c + 1" by (rule int32_id)
  with assms show ?thesis
    using updateAttendance_valid [of i w s] toInt_String [OF range]
    by (simp add: currentCount_def)
qed

theorem updateAttendance_increments_witness:
  "(0::int) \<le> 2 \<and> 2 < MAX_STUDENTS \<and> getSucceeds online \<and> updateSucceeds online \<and>
   sheet classroom (cellRange 2) = Some ''0'' \<and> toInt ''0'' = 0 \<and> 0 < INT_MAX \<and>
   updateAttendance online 2 classroom =
     Some (classroom\<lparr>sheet := (sheet classroom)(''Sheet1!C4'' \<mapsto> ''1''),
             requests := [Get ''Sheet1!C4'', Update ''Sheet1!C4'' ''1''],
             serial := [''Updated attendance for Olivia Williams: 1'']\<rparr>)"
  using updateAttendance_increments [of 2 online classroom "''0''" 0]
  by (simp add: MAX_STUDENTS_def online_def classroom_def cellRange_def int32_def String_def
      decimal_digits.simps digit_char_def toInt_def atol_digits_def atol_sign_def isspace_def
      isdigit_def digit_val_def INT_MIN_def INT_MAX_def firstNames_def lastNames_def)

text \<open>
  Without the bound the claim fails: at the count 2147483647 the 32-bit addition wraps
  around, and the call reports and stores -2147483648.
\<close>

theorem updateAttendance_overflow:
  "sheet (classroom_with ''2147483647'') (cellRange 2) = Some ''2147483647'' \<and>
   toInt ''2147483647'' = 2147483647 \<and>
   updateAttendance online 2 (classroom_with ''2147483647'') =
     Some ((classroom_with ''2147483647'')
            \<lparr>sheet := (sheet (classroom_with ''2147483647''))(''Sheet1!C4'' \<mapsto> ''-2147483648''),
             requests := [Get ''Sheet1!C4'', Update ''Sheet1!C4'' ''-2147483648''],
             serial := [''Updated attendance for Olivia Williams: -2147483648'']\<rparr>) \<and>
   toInt ''-2147483648'' \<noteq> 2147483647 + 1"
  by (simp add: updateAttendance_valid MAX_STUDENTS_def online_def classroom_def classroom_with_def
      cellRange_def int32_def String_def currentCount_def
      decimal_digits.simps digit_char_def toInt_def atol_digits_def atol_sign_def isspace_def
      isdigit_def digit_val_def INT_MIN_def INT_MAX_def firstNames_def lastNames_def)


text \<open>
  C3: for every valid index, if the read succeeds and returns the count \<open>c\<close> but the
  write fails, \<^verbatim>\<open>updateAttendance\<close> prints \<open>Failed to update attendance\<close> and the
  sheet is what it was: the student's cell still holds \<open>c\<close>, not \<open>c + 1\<close>. The only
  requests sent are the read and the failed write: nothing is retried or undone.
\<close>

theorem updateAttendance_write_fails:
  assumes "0 \<le> i" and "i < MAX_STUDENTS"
    and "getSucceeds w" and "\<not> updateSucceeds w"
    and "sheet s (cellRange i) = Some v" and "toInt v = c"
  shows "\<exists>s'. updateAttendance w i s = Some s' \<and>
      s' = s\<lparr>requests := requests s @
                 [Get (cellRange i), Update (cellRange i) (String (int32 (c + 1)))],
               serial := serial s @ [''Failed to update attendance'']\<rparr> \<and>
      sheet s' = sheet s \<and>
      sheet s' (cellRange i) = Some v \<and> toInt v \<noteq> c + 1"
  using assms updateAttendance_valid [of i w s] by (simp add: currentCount_def)

theorem updateAttendance_write_fails_witness:
  "(0::int) \<le> 2 \<and> 2 < MAX_STUDENTS \<and>
   getSucceeds (online\<lparr>updateSucceeds := False\<rparr>) \<and>
   \<not> updateSucceeds (online\<lparr>updateSucceeds := False\<rparr>) \<and>
   sheet (classroom_with ''7'') (cellRange 2) = Some ''7'' \<and> toInt ''7'' = 7 \<and>
   updateAttendance (online\<lparr>updateSucceeds := False\<rparr>) 2 (classroom_with ''7'') =
     Some ((classroom_with ''7'')
       \<lparr>requests := [Get ''Sheet1!C4'', Update ''Sheet1!C4'' ''8''],
        serial := [''Failed to update attendance'']\<rparr>)"
  using updateAttendance_write_fails
    [of 2 "online\<lparr>updateSucceeds := False\<rparr>" "classroom_with ''7''" "''7''" 7]
  by (simp add: MAX_STUDENTS_def online_def classroom_def classroom_with_def cellRange_def
      int32_def String_def decimal_digits.simps digit_char_def toInt_def atol_digits_def
      atol_sign_def isspace_def isdigit_def digit_val_def INT_MIN_def INT_MAX_def)

text \<open>
  C4: for every valid index, if the read fails, or the cell is empty, or its text has no
  digits where \<^verbatim>\<open>toInt\<close> looks for a number, \<^verbatim>\<open>updateAttendance\<close> takes the
  current count to be 0 and goes on to write 1 to the student's cell; no error is
  reported for the read, and the line printed after a successful write announces 1.
\<close>

theorem updateAttendance_read_fallback:
  assumes "0 \<le> i" and "i < MAX_STUDENTS"
    and "\<not> getSucceeds w \<or> sheet s (cellRange i) = None \<or>
         (\<exists>v. sheet s (cellRange i) = Some v \<and> atol_digits v = [])"
  shows "updateAttendance w i s =
      Some (s\<lparr>sheet :=
                 (if updateSucceeds w then (sheet s)(cellRange i \<mapsto> ''1'') else sheet s),
              requests := requests s @ [Get (cellRange i), Update (cellRange i) ''1''],
              serial := serial s @
                [if updateSucceeds w
                 then ''Updated attendance for '' @ firstNames ! nat i @ '' '' @
                   lastNames ! nat i @ '': 1''
                 else ''Failed to update attendance'']\<rparr>)"
proof -
  from assms(3)
  have "currentCount (if getSucceeds w then Some (sheet s (cellRange i)) else None) = 0"
    by (auto simp: currentCount_def toInt_no_digits)
  moreover have "String (int32 1) = ''1''"
    by (simp add: String_def int32_def decimal_digits.simps digit_char_def)
  ultimately show ?thesis
    using assms(1,2) updateAttendance_valid [of i w s] by simp
qed

theorem updateAttendance_read_fallback_witness:
  "(0::int) \<le> 2 \<and> 2 < MAX_STUDENTS \<and> \<not> getSucceeds (online\<lparr>getSucceeds := False\<rparr>) \<and>
   updateAttendance (online\<lparr>getSucceeds := False\<rparr>) 2 (classroom_with ''7'') =
     Some ((classroom_with ''7'')
       \<lparr>sheet := (sheet (classroom_with ''7''))(''Sheet1!C4'' \<mapsto> ''1''),
        requests := [Get ''Sheet1!C4'', Update ''Sheet1!C4'' ''1''],
        serial := [''Updated attendance for Olivia Williams: 1'']\<rparr>) \<and>
   atol_digits ''n/a'' = [] \<and>
   updateAttendance online 2 (classroom_with ''n/a'') =
     Some ((classroom_with ''n/a'')
       \<lparr>sheet := (sheet (classroom_with ''n/a''))(''Sheet1!C4'' \<mapsto> ''1''),
        requests := [Get ''Sheet1!C4'', Update ''Sheet1!C4'' ''1''],
        serial := [''Updated attendance for Olivia Williams: 1'']\<rparr>)"
  using updateAttendance_read_fallback
      [of 2 "online\<lparr>getSucceeds := False\<rparr>" "classroom_with ''7''"]
    updateAttendance_read_fallback [of 2 online "classroom_with ''n/a''"]
  by (simp add: MAX_STUDENTS_def online_def classroom_def classroom_with_def cellRange_def
      int32_def String_def decimal_digits.simps digit_char_def atol_digits_def
      atol_sign_def isspace_def isdigit_def firstNames_def lastNames_def)

text \<open>
  C7: for every valid index, one call of \<^verbatim>\<open>updateAttendance\<close> sends exactly two
  requests, a read and then a write, both for the cell in column C of row
  \<open>studentIndex + 2\<close> of \<open>Sheet1\<close>; every other cell of the sheet is as before.
\<close>

theorem updateAttendance_one_cell:
  assumes "0 \<le> i" and "i < MAX_STUDENTS"
  shows "\<exists>s' v. updateAttendance w i s = Some s' \<and>
      requests s' = requests s @
        [Get (''Sheet1!C'' @ String (i + 2)), Update (''Sheet1!C'' @ String (i + 2)) v] \<and>
      (\<forall>r. r \<noteq> ''Sheet1!C'' @ String (i + 2) \<longrightarrow> sheet s' r = sheet s r)"
  using assms updateAttendance_valid [of i w s] cellRange_valid [of i] by simp

theorem updateAttendance_one_cell_witness:
  "(0::int) \<le> 2 \<and> 2 < MAX_STUDENTS \<and>
   (\<exists>s' v. updateAttendance online 2 classroom = Some s' \<and>
      requests s' = [Get ''Sheet1!C4'', Update ''Sheet1!C4'' v] \<and>
      sheet s' ''Sheet1!C3'' = Some ''0'')"
proof -
  have valid: "(0::int) \<le> 2" "2 < MAX_STUDENTS"
    by (simp_all add: MAX_STUDENTS_def)
  have cell: "''Sheet1!C'' @ String (2 + 2) = ''Sheet1!C4''"
    by (simp add: String_def decimal_digits.simps digit_char_def)
  from updateAttendance_one_cell [OF valid, of online classroom]
  obtain s' v where call: "updateAttendance online 2 classroom = Some s'"
    and reqs: "requests s' = requests classroom @ [Get ''Sheet1!C4'', Update ''Sheet1!C4'' v]"
    and rest: "\<forall>r. r \<noteq> ''Sheet1!C4'' \<longrightarrow> sheet s' r = sheet classroom r"
    unfolding cell by blast
  from rest have "sheet s' ''Sheet1!C3'' = sheet classroom ''Sheet1!C3''"
    by simp
  then have "sheet s' ''Sheet1!C3'' = Some ''0''"
    by (simp add: classroom_def)
  with call reqs valid show ?thesis
    by (simp add: classroom_def)
qed


subsection \<open>Claims about the card handler\<close>

lemma random_long_range:
  "0 \<le> random_long g MAX_STUDENTS \<and> random_long g MAX_STUDENTS < MAX_STUDENTS"
  by (simp add: random_long_def MAX_STUDENTS_def)

lemma handleNewCard_valid:
  "handleNewCard w s =
     updateAttendance w (random_long (generator w) MAX_STUDENTS)
       (s\<lparr>serial := serial s @ [''RFID card detected!'']\<rparr>)"
  by (simp add: handleNewCard_def Serial_println_def Let_def)

text \<open>
  What \<^verbatim>\<open>handleNewCard\<close> does from any state, and the one way a pass of \<^verbatim>\<open>loop\<close>
  takes the arrival branch.
\<close>

lemma handleNewCard_result:
  "handleNewCard w s =
     Some (s\<lparr>sheet :=
               (if updateSucceeds w
                then (sheet s)(cellRange (random_long (generator w) MAX_STUDENTS) \<mapsto>
                  String (int32 (currentCount
                    (if getSucceeds w
                     then Some (sheet s (cellRange (random_long (generator w) MAX_STUDENTS)))
                     else None) + 1)))
                else sheet s),
            requests := requests s @
               [Get (cellRange (random_long (generator w) MAX_STUDENTS)),
                Update (cellRange (random_long (generator w) MAX_STUDENTS))
                  (String (int32 (currentCount
                    (if getSucceeds w
                     then Some (sheet s (cellRange (random_long (generator w) MAX_STUDENTS)))
                     else None) + 1)))],
            serial := serial s @
               [''RFID card detected!'',
                if updateSucceeds w
                then ''Updated attendance for '' @
                  firstNames ! nat (random_long (generator w) MAX_STUDENTS) @ '' '' @
                  lastNames ! nat (random_long (generator w) MAX_STUDENTS) @ '': '' @
                  String (int32 (currentCount
                    (if getSucceeds w
                     then Some (sheet s (cellRange (random_long (generator w) MAX_STUDENTS)))
                     else None) + 1))
                else ''Failed to update attendance'']\<rparr>)"
proof -
  let ?i = "random_long (generator w) MAX_STUDENTS"
  have valid: "0 \<le> ?i" "?i < MAX_STUDENTS"
    using random_long_range [of "generator w"] by simp_all
  show ?thesis
    by (simp add: handleNewCard_valid updateAttendance_valid [OF valid])
qed

lemma loop_Arrived_only:
  assumes "loop w s = Some (Arrived, s')"
  shows "isSystemInitialized s \<and> ready w \<and> \<not> cardPresent s \<and> newCardPresent w \<and> cardSerialRead w"
proof (rule ccontr)
  assume "\<not> (isSystemInitialized s \<and> ready w \<and> \<not> cardPresent s \<and> newCardPresent w \<and>
    cardSerialRead w)"
  then have "\<exists>ev s1. loop w s = Some (ev, s1) \<and> ev \<noteq> Arrived"
    by (auto simp: loop_def PICC_IsNewCardPresent_def PICC_ReadCardSerial_def)
  with assms show False by auto
qed

lemma loop_arrival:
  assumes "isSystemInitialized s" and "ready w" and "\<not> cardPresent s"
    and "newCardPresent w" and "cardSerialRead w"
  shows "loop w s =
     Some (Arrived,
       s\<lparr>cardPresent := True,
         sheet :=
               (if updateSucceeds w
                then (sheet s)(cellRange (random_long (generator w) MAX_STUDENTS) \<mapsto>
                  String (int32 (currentCount
                    (if getSucceeds w
                     then Some (sheet s (cellRange (random_long (generator w) MAX_STUDENTS)))
                     else None) + 1)))
                else sheet s),
         requests := requests s @
               [Get (cellRange (random_long (generator w) MAX_STUDENTS)),
                Update (cellRange (random_long (generator w) MAX_STUDENTS))
                  (String (int32 (currentCount
                    (if getSucceeds w
                     then Some (sheet s (cellRange (random_long (generator w) MAX_STUDENTS)))
                     else None) + 1)))],
         reader := reader s @ [IsNewCardPresent, ReadCardSerial, HaltA, StopCrypto1],
         serial := serial s @
               [''RFID card detected!'',
                if updateSucceeds w
                then ''Updated attendance for '' @
                  firstNames ! nat (random_long (generator w) MAX_STUDENTS) @ '' '' @
                  lastNames ! nat (random_long (generator w) MAX_STUDENTS) @ '': '' @
                  String (int32 (currentCount
                    (if getSucceeds w
                     then Some (sheet s (cellRange (random_long (generator w) MAX_STUDENTS)))
                     else None) + 1))
                else ''Failed to update attendance'',
                ''Please remove the card...''],
         delays := delays s @ [1000, 100]\<rparr>)"
  using assms
  by (simp add: loop_def PICC_IsNewCardPresent_def PICC_ReadCardSerial_def handleNewCard_result
      PICC_HaltA_def PCD_StopCrypto1_def Serial_println_def delay_def)

text \<open>
  C10: the index that \<^verbatim>\<open>handleNewCard\<close> draws is always in \<open>[0, MAX_STUDENTS)\<close>, so
  the call of \<^verbatim>\<open>updateAttendance\<close> it makes never takes the branch that rejects the
  index. Every pass of \<^verbatim>\<open>loop\<close> that handles an arriving card makes this call: it
  sends the read and the write of the drawn student's cell and nothing else, the line
  printed for the update is never \<open>Invalid student index\<close>, and the state after the
  pass is the one written out below. A pass with the system initialised and ready, the
  flag clear and a card found and read is such a pass.
\<close>

theorem card_arrival_updates_drawn_student:
  "\<exists>i v l. i = random_long (generator w) MAX_STUDENTS \<and> 0 \<le> i \<and> i < MAX_STUDENTS \<and>
     l \<noteq> ''Invalid student index'' \<and>
     handleNewCard w s = updateAttendance w i (Serial_println ''RFID card detected!'' s) \<and>
     handleNewCard w s =
       Some (s\<lparr>sheet := (if updateSucceeds w then (sheet s)(cellRange i \<mapsto> v) else sheet s),
               requests := requests s @ [Get (cellRange i), Update (cellRange i) v],
               serial := serial s @ [''RFID card detected!'', l]\<rparr>) \<and>
     (\<forall>s'. loop w s = Some (Arrived, s') \<longrightarrow>
        s' = s\<lparr>cardPresent := True,
               sheet := (if updateSucceeds w then (sheet s)(cellRange i \<mapsto> v) else sheet s),
               requests := requests s @ [Get (cellRange i), Update (cellRange i) v],
               reader := reader s @ [IsNewCardPresent, ReadCardSerial, HaltA, StopCrypto1],
               serial := serial s @ [''RFID card detected!'', l, ''Please remove the card...''],
               delays := delays s @ [1000, 100]\<rparr>) \<and>
     (isSystemInitialized s \<and> ready w \<and> \<not> cardPresent s \<and> newCardPresent w \<and>
      cardSerialRead w \<longrightarrow> (\<exists>s'. loop w s = Some (Arrived, s')))"
proof -
  let ?i = "random_long (generator w) MAX_STUDENTS"
  let ?v = "String (int32 (currentCount
              (if getSucceeds w then Some (sheet s (cellRange ?i)) else None) + 1))"
  let ?l = "if updateSucceeds w
            then ''Updated attendance for '' @ firstNames ! nat ?i @ '' '' @
              lastNames ! nat ?i @ '': '' @ ?v
            else ''Failed to update attendance''"
  have valid: "0 \<le> ?i" "?i < MAX_STUDENTS"
    using random_long_range [of "generator w"] by simp_all
  have line: "?l \<noteq> ''Invalid student index''"
    by simp
  have call: "handleNewCard w s =
      updateAttendance w ?i (Serial_println ''RFID card detected!'' s)"
    by (simp add: handleNewCard_def Let_def)
  have result: "handleNewCard w s =
       Some (s\<lparr>sheet := (if updateSucceeds w then (sheet s)(cellRange ?i \<mapsto> ?v) else sheet s),
               requests := requests s @ [Get (cellRange ?i), Update (cellRange ?i) ?v],
               serial := serial s @ [''RFID card detected!'', ?l]\<rparr>)"
    by (rule handleNewCard_result)
  have arrival: "\<forall>s'. loop w s = Some (Arrived, s') \<longrightarrow>
        s' = s\<lparr>cardPresent := True,
               sheet := (if updateSucceeds w then (sheet s)(cellRange ?i \<mapsto> ?v) else sheet s),
               requests := requests s @ [Get (cellRange ?i), Update (cellRange ?i) ?v],
               reader := reader s @ [IsNewCardPresent, ReadCardSerial, HaltA, StopCrypto1],
               serial := serial s @ [''RFID card detected!'', ?l, ''Please remove the card...''],
               delays := delays s @ [1000, 100]\<rparr>"
  proof (intro allI impI)
    fix s'
    assume pass: "loop w s = Some (Arrived, s')"
    then have "isSystemInitialized s \<and> ready w \<and> \<not> cardPresent s \<and> newCardPresent w \<and>
        cardSerialRead w"
      by (rule loop_Arrived_only)
    then show "s' = s\<lparr>cardPresent := True,
               sheet := (if updateSucceeds w then (sheet s)(cellRange ?i \<mapsto> ?v) else sheet s),
               requests := requests s @ [Get (cellRange ?i), Update (cellRange ?i) ?v],
               reader := reader s @ [IsNewCardPresent, ReadCardSerial, HaltA, StopCrypto1],
               serial := serial s @ [''RFID card detected!'', ?l, ''Please remove the card...''],
               delays := delays s @ [1000, 100]\<rparr>"
      using pass by (simp add: loop_arrival)
  qed
  have happens: "isSystemInitialized s \<and> ready w \<and> \<not> cardPresent s \<and> newCardPresent w \<and>
      cardSerialRead w \<longrightarrow> (\<exists>s'. loop w s = Some (Arrived, s'))"
    by (simp add: loop_arrival)
  show ?thesis
    apply (rule exI [of _ ?i])
    apply (rule exI [of _ ?v])
    apply (rule exI [of _ ?l])
    using valid line call result arrival happens apply blast
    done
qed

theorem card_arrival_updates_drawn_student_witness:
  "isSystemInitialized classroom \<and> ready online \<and> \<not> cardPresent classroom \<and>
   newCardPresent online \<and> cardSerialRead online \<and>
   random_long (generator online) MAX_STUDENTS = 2 \<and>
   (\<exists>s'. loop online classroom = Some (Arrived, s')) \<and>
   loop online classroom =
     Some (Arrived,
       classroom\<lparr>cardPresent := True,
         sheet := (sheet classroom)(''Sheet1!C4'' \<mapsto> ''1''),
         requests := [Get ''Sheet1!C4'', Update ''Sheet1!C4'' ''1''],
         reader := [IsNewCardPresent, ReadCardSerial, HaltA, StopCrypto1],
         serial := [''RFID card detected!'', ''Updated attendance for Olivia Williams: 1'',
           ''Please remove the card...''],
         delays := [1000, 100]\<rparr>)"
proof -
  have draw: "random_long (generator online) MAX_STUDENTS = 2"
    by (simp add: random_long_def online_def MAX_STUDENTS_def)
  have gate: "isSystemInitialized classroom \<and> ready online \<and> \<not> cardPresent classroom \<and>
      newCardPresent online \<and> cardSerialRead online"
    by (simp add: classroom_def online_def)
  from card_arrival_updates_drawn_student [of online classroom]
  have "isSystemInitialized classroom \<and> ready online \<and> \<not> cardPresent classroom \<and>
      newCardPresent online \<and> cardSerialRead online \<longrightarrow>
      (\<exists>s'. loop online classroom = Some (Arrived, s'))"
    by (elim exE conjE)
  with gate have arrives: "\<exists>s'. loop online classroom = Some (Arrived, s')"
    by (rule rev_mp)
  have evals: "cellRange 2 = ''Sheet1!C4''" "toInt ''0'' = 0" "String (int32 1) = ''1''"
    by (simp_all add: cellRange_def toInt_def atol_digits_def atol_sign_def isspace_def
        isdigit_def digit_val_def INT_MIN_def INT_MAX_def int32_def String_def
        decimal_digits.simps digit_char_def)
  have names: "firstNames ! 2 = ''Olivia''" "lastNames ! 2 = ''Williams''"
    by (simp_all add: firstNames_def lastNames_def)
  have "loop online classroom =
     Some (Arrived,
       classroom\<lparr>cardPresent := True,
         sheet := (sheet classroom)(''Sheet1!C4'' \<mapsto> ''1''),
         requests := [Get ''Sheet1!C4'', Update ''Sheet1!C4'' ''1''],
         reader := [IsNewCardPresent, ReadCardSerial, HaltA, StopCrypto1],
         serial := [''RFID card detected!'', ''Updated attendance for Olivia Williams: 1'',
           ''Please remove the card...''],
         delays := [1000, 100]\<rparr>)"
    using gate by (simp add: loop_arrival draw evals names currentCount_def)
      (simp add: classroom_def online_def evals)
  with gate draw arrives show ?thesis
    by simp
qed

subsection \<open>Claims about sequences of updates\<close>

lemma valid_index_cases:
  "0 \<le> i \<Longrightarrow> i < MAX_STUDENTS \<Longrightarrow> i = 0 \<or> i = 1 \<or> i = 2 \<or> i = 3 \<or> i = 4"
  by (simp add: MAX_STUDENTS_def) arith

lemma cellRange_values:
  "cellRange 0 = ''Sheet1!C2''" "cellRange 1 = ''Sheet1!C3''" "cellRange 2 = ''Sheet1!C4''"
  "cellRange 3 = ''Sheet1!C5''" "cellRange 4 = ''Sheet1!C6''"
  by (simp_all add: cellRange_def int32_def String_def decimal_digits.simps digit_char_def)

lemma cellRange_inj:
  assumes "0 \<le> i" and "i < MAX_STUDENTS" and "0 \<le> j" and "j < MAX_STUDENTS"
    and "cellRange i = cellRange j"
  shows "i = j"
  using valid_index_cases [OF assms(1,2)] valid_index_cases [OF assms(3,4)] assms(5)
  by (auto simp: cellRange_values)

lemma currentCount_range: "INT_MIN \<le> currentCount x \<and> currentCount x \<le> INT_MAX"
  using toInt_range
  by (auto simp: currentCount_def INT_MIN_def INT_MAX_def split: option.splits)

text \<open>
  One call in which a successful write was preceded by a successful read, from a state
  where no count is at the 32-bit maximum: every student's count stays or grows by one.
\<close>

lemma updateAttendance_step_monotone:
  assumes "updateSucceeds w \<longrightarrow> getSucceeds w"
    and "\<forall>j. 0 \<le> j \<and> j < MAX_STUDENTS \<longrightarrow> storedCount s j < INT_MAX"
  shows "\<exists>s'. updateAttendance w i s = Some s' \<and>
     (\<forall>j. 0 \<le> j \<and> j < MAX_STUDENTS \<longrightarrow>
        storedCount s j \<le> storedCount s' j \<and> storedCount s' j \<le> storedCount s j + 1)"
proof (cases "0 \<le> i \<and> i < MAX_STUDENTS")
  case False
  then show ?thesis
    by (auto simp: updateAttendance_def Serial_println_def storedCount_def)
next
  case True
  then have valid: "0 \<le> i" "i < MAX_STUDENTS" by simp_all
  show ?thesis
  proof (cases "updateSucceeds w")
    case False
    with valid show ?thesis
      by (simp add: updateAttendance_valid storedCount_def)
  next
    case True
    with assms(1) have get: "getSucceeds w" by simp
    let ?c = "storedCount s i"
    from assms(2) valid have "?c < INT_MAX" by simp
    moreover have "INT_MIN \<le> ?c"
      using currentCount_range by (simp add: storedCount_def)
    ultimately have range: "INT_MIN \<le> ?c + 1" "?c + 1 \<le> INT_MAX" by simp_all
    then have wrap: "int32 (?c + 1) = ?c + 1" by (rule int32_id)
    have reread: "toInt (String (?c + 1)) = ?c + 1"
      using range by (rule toInt_String)
    let ?s' = "s\<lparr>sheet := (sheet s)(cellRange i \<mapsto> String (?c + 1)),
            requests := requests s @
               [Get (cellRange i), Update (cellRange i) (String (?c + 1))],
            serial := serial s @
               [''Updated attendance for '' @ firstNames ! nat i @ '' '' @ lastNames ! nat i @
                '': '' @ String (?c + 1)]\<rparr>"
    have call: "updateAttendance w i s = Some ?s'"
      using True get wrap [unfolded storedCount_def]
      by (simp add: updateAttendance_valid [OF valid] storedCount_def)
    have "\<forall>j. 0 \<le> j \<and> j < MAX_STUDENTS \<longrightarrow>
        storedCount s j \<le> storedCount ?s' j \<and> storedCount ?s' j \<le> storedCount s j + 1"
    proof (intro allI impI)
      fix j
      assume j: "0 \<le> j \<and> j < MAX_STUDENTS"
      show "storedCount s j \<le> storedCount ?s' j \<and> storedCount ?s' j \<le> storedCount s j + 1"
      proof (cases "j = i")
        case True
        have "storedCount ?s' i = ?c + 1"
          using reread by (simp add: storedCount_def currentCount_def)
        with True show ?thesis by simp
      next
        case False
        with j valid have "cellRange j \<noteq> cellRange i"
          using cellRange_inj [of j i] by blast
        then have "storedCount ?s' j = storedCount s j"
          by (simp add: storedCount_def)
        then show ?thesis by simp
      qed
    qed
    with call show ?thesis by blast
  qed
qed

text \<open>
  C6, amended: for every student, the count stored in the sheet never decreases across a
  sequence of calls of \<^verbatim>\<open>updateAttendance\<close> in which every call whose write succeeds
  also had its read succeed, as long as the counts have room to grow within 32 bits (each
  count plus the number of calls is at most 2147483647). A cell whose text is not a
  number counts as 0, as the sketch reads it.
\<close>

theorem stored_counts_never_decrease:
  assumes "\<forall>(w, i)\<in>set calls. updateSucceeds w \<longrightarrow> getSucceeds w"
    and "\<forall>j. 0 \<le> j \<and> j < MAX_STUDENTS \<longrightarrow> storedCount s j + int (length calls) \<le> INT_MAX"
  shows "\<exists>s'. increments calls s = Some s' \<and>
     (\<forall>j. 0 \<le> j \<and> j < MAX_STUDENTS \<longrightarrow> storedCount s j \<le> storedCount s' j)"
  using assms
proof (induction calls arbitrary: s)
  case Nil
  then show ?case by simp
next
  case (Cons call calls)
  obtain w i where call: "call = (w, i)" by (cases call)
  from Cons.prems(1) call have ok: "updateSucceeds w \<longrightarrow> getSucceeds w" by simp
  from Cons.prems(2) have room: "\<forall>j. 0 \<le> j \<and> j < MAX_STUDENTS \<longrightarrow> storedCount s j < INT_MAX"
    by auto
  from updateAttendance_step_monotone [OF ok room, of i] obtain s1
    where step: "updateAttendance w i s = Some s1"
      and grow: "\<forall>j. 0 \<le> j \<and> j < MAX_STUDENTS \<longrightarrow>
        storedCount s j \<le> storedCount s1 j \<and> storedCount s1 j \<le> storedCount s j + 1"
    by blast
  from Cons.prems(1) have "\<forall>(w, i)\<in>set calls. updateSucceeds w \<longrightarrow> getSucceeds w"
    by simp
  moreover from Cons.prems(2) grow
  have "\<forall>j. 0 \<le> j \<and> j < MAX_STUDENTS \<longrightarrow> storedCount s1 j + int (length calls) \<le> INT_MAX"
    by fastforce
  ultimately obtain s' where rest: "increments calls s1 = Some s'"
    and later: "\<forall>j. 0 \<le> j \<and> j < MAX_STUDENTS \<longrightarrow> storedCount s1 j \<le> storedCount s' j"
    using Cons.IH [of s1] by blast
  from grow later have "\<forall>j. 0 \<le> j \<and> j < MAX_STUDENTS \<longrightarrow> storedCount s j \<le> storedCount s' j"
    by fastforce
  with call step rest show ?case by simp
qed

theorem stored_counts_never_decrease_witness:
  "storedCount classroom 2 = 0 \<and>
   (\<exists>s'. increments [(online, 2), (online\<lparr>updateSucceeds := False\<rparr>, 2), (online, 2)] classroom =
            Some s' \<and>
          storedCount classroom 2 \<le> storedCount s' 2 \<and> storedCount s' 2 = 2)"
proof -
  let ?calls = "[(online, 2), (online\<lparr>updateSucceeds := False\<rparr>, 2), (online, 2)]"
  have evals: "cellRange 2 = ''Sheet1!C4''" "toInt ''0'' = 0" "toInt ''1'' = 1" "toInt ''2'' = 2"
    "String (int32 1) = ''1''" "String (int32 2) = ''2''"
    by (simp_all add: cellRange_values toInt_def atol_digits_def atol_sign_def isspace_def
        isdigit_def digit_val_def INT_MIN_def INT_MAX_def int32_def String_def
        decimal_digits.simps digit_char_def)
  have ok: "\<forall>(w, i)\<in>set ?calls. updateSucceeds w \<longrightarrow> getSucceeds w"
    by (simp add: online_def)
  have room: "\<forall>j. 0 \<le> j \<and> j < MAX_STUDENTS \<longrightarrow>
      storedCount classroom j + int (length ?calls) \<le> INT_MAX"
  proof (intro allI impI)
    fix j :: int
    assume "0 \<le> j \<and> j < MAX_STUDENTS"
    then have "j = 0 \<or> j = 1 \<or> j = 2 \<or> j = 3 \<or> j = 4"
      using valid_index_cases [of j] by simp
    then show "storedCount classroom j + int (length ?calls) \<le> INT_MAX"
      by (auto simp: storedCount_def currentCount_def cellRange_values classroom_def evals
          INT_MAX_def)
  qed
  from stored_counts_never_decrease [OF ok room] obtain s'
    where run: "increments ?calls classroom = Some s'"
      and grown: "storedCount classroom 2 \<le> storedCount s' 2"
    by (auto simp: MAX_STUDENTS_def)
  have "map_option (\<lambda>s. storedCount s 2) (increments ?calls classroom) = Some 2"
    by (simp add: updateAttendance_valid MAX_STUDENTS_def online_def classroom_def
        storedCount_def currentCount_def evals)
  with run have "storedCount s' 2 = 2" by simp
  moreover have "storedCount classroom 2 = 0"
    by (simp add: storedCount_def currentCount_def classroom_def evals)
  ultimately show ?thesis
    using run grown by blast
qed

text \<open>
  With a read that fails the claim does not hold: the count of student 2 is 7, the read
  fails, the write succeeds, and the cell then holds 1.
\<close>

theorem failed_read_resets_count:
  "storedCount (classroom_with ''7'') 2 = 7 \<and>
   increments [(online\<lparr>getSucceeds := False\<rparr>, 2)] (classroom_with ''7'') =
     Some ((classroom_with ''1'')
       \<lparr>requests := [Get ''Sheet1!C4'', Update ''Sheet1!C4'' ''1''],
        serial := [''Updated attendance for Olivia Williams: 1'']\<rparr>) \<and>
   storedCount ((classroom_with ''1'')
       \<lparr>requests := [Get ''Sheet1!C4'', Update ''Sheet1!C4'' ''1''],
        serial := [''Updated attendance for Olivia Williams: 1'']\<rparr>) 2 = 1"
  by (simp add: updateAttendance_valid MAX_STUDENTS_def online_def classroom_def classroom_with_def
      storedCount_def currentCount_def cellRange_def int32_def String_def
      decimal_digits.simps digit_char_def toInt_def atol_digits_def atol_sign_def isspace_def
      isdigit_def digit_val_def INT_MIN_def INT_MAX_def firstNames_def lastNames_def)

subsection \<open>Claims about the main loop\<close>

lemma loop_not_ready:
  "isSystemInitialized s \<Longrightarrow> \<not> ready w \<Longrightarrow>
   loop w s = Some (NoEvent, s\<lparr>serial := serial s @ [''Lost connection to Google Sheets!''],
                              delays := delays s @ [1000]\<rparr>)"
  by (simp add: loop_def Serial_println_def delay_def)

text \<open>
  C8: once the system is initialised, a pass of \<^verbatim>\<open>loop\<close> in which the service is not
  ready only prints a line and waits one second: it sends no request, does not ask the
  reader and leaves the card flag alone. This goes on for as many passes as the service
  stays not ready, with no limit: after any number of them the state differs from the
  first one only by the lines printed and the delays waited.
\<close>

theorem loop_waits_while_not_ready:
  assumes "isSystemInitialized s" and "\<forall>w\<in>set ws. \<not> ready w"
  shows "run ws s =
     Some (replicate (length ws) NoEvent,
           s\<lparr>serial := serial s @ replicate (length ws) ''Lost connection to Google Sheets!'',
             delays := delays s @ replicate (length ws) 1000\<rparr>)"
  using assms
proof (induction ws arbitrary: s)
  case Nil
  then show ?case by simp
next
  case (Cons w ws)
  let ?s1 = "s\<lparr>serial := serial s @ [''Lost connection to Google Sheets!''],
                delays := delays s @ [1000]\<rparr>"
  from Cons.prems have step: "loop w s = Some (NoEvent, ?s1)"
    by (simp add: loop_not_ready)
  from Cons.prems have "isSystemInitialized ?s1" and "\<forall>w\<in>set ws. \<not> ready w"
    by simp_all
  then have "run ws ?s1 =
     Some (replicate (length ws) NoEvent,
           ?s1\<lparr>serial := serial ?s1 @ replicate (length ws) ''Lost connection to Google Sheets!'',
               delays := delays ?s1 @ replicate (length ws) 1000\<rparr>)"
    by (rule Cons.IH)
  with step show ?case by simp
qed

theorem loop_waits_while_not_ready_witness:
  "isSystemInitialized classroom \<and>
   run [online\<lparr>ready := False\<rparr>, online\<lparr>ready := False\<rparr>, online\<lparr>ready := False\<rparr>] classroom =
     Some ([NoEvent, NoEvent, NoEvent],
           classroom\<lparr>serial := [''Lost connection to Google Sheets!'',
               ''Lost connection to Google Sheets!'', ''Lost connection to Google Sheets!''],
             delays := [1000, 1000, 1000]\<rparr>)"
  using loop_waits_while_not_ready
    [of classroom "[online\<lparr>ready := False\<rparr>, online\<lparr>ready := False\<rparr>, online\<lparr>ready := False\<rparr>]"]
  by (simp add: classroom_def online_def)

text \<open>
  A pass with the service ready follows the debouncer's table, and a sequence of them
  follows the debouncer run from the same flag.
\<close>

lemma handleNewCard_flags:
  "\<exists>s'. handleNewCard w s = Some s' \<and> cardPresent s' = cardPresent s \<and>
     isSystemInitialized s' = isSystemInitialized s"
proof -
  let ?i = "random_long (generator w) MAX_STUDENTS"
  have "0 \<le> ?i" and "?i < MAX_STUDENTS"
    using random_long_range [of "generator w"] by simp_all
  then show ?thesis
    by (simp add: handleNewCard_valid updateAttendance_valid)
qed

lemma loop_ready:
  assumes "isSystemInitialized s" and "ready w"
  shows "\<exists>s'. loop w s = Some (fst (Debouncer_poll (cardPresent s) w), s') \<and>
     cardPresent s' = snd (Debouncer_poll (cardPresent s) w) \<and> isSystemInitialized s'"
proof (cases "\<not> cardPresent s \<and> newCardPresent w \<and> cardSerialRead w")
  case True
  let ?s1 = "s\<lparr>reader := reader s @ [IsNewCardPresent, ReadCardSerial], cardPresent := True\<rparr>"
  from handleNewCard_flags [of w ?s1] obtain s2
    where "handleNewCard w ?s1 = Some s2" and "cardPresent s2" and "isSystemInitialized s2 = isSystemInitialized s"
    by auto
  with True assms show ?thesis
    by (simp add: loop_def Debouncer_poll_def PICC_IsNewCardPresent_def PICC_ReadCardSerial_def
        PICC_HaltA_def PCD_StopCrypto1_def Serial_println_def delay_def)
next
  case False
  with assms show ?thesis
    by (auto simp: loop_def Debouncer_poll_def PICC_IsNewCardPresent_def PICC_ReadCardSerial_def
        Serial_println_def delay_def)
qed

lemma run_refines_Debouncer:
  assumes "isSystemInitialized s" and "\<forall>w\<in>set ws. ready w"
  shows "\<exists>s'. run ws s = Some (fst (Debouncer_run (cardPresent s) ws), s') \<and>
     cardPresent s' = snd (Debouncer_run (cardPresent s) ws) \<and> isSystemInitialized s'"
  using assms
proof (induction ws arbitrary: s)
  case Nil
  then show ?case by simp
next
  case (Cons w ws)
  from Cons.prems loop_ready [of s w] obtain s1
    where step: "loop w s = Some (fst (Debouncer_poll (cardPresent s) w), s1)"
      and flag: "cardPresent s1 = snd (Debouncer_poll (cardPresent s) w)"
      and init: "isSystemInitialized s1"
    by auto
  from Cons.prems have "\<forall>w\<in>set ws. ready w" by simp
  with init Cons.IH [of s1] obtain s2
    where rest: "run ws s1 = Some (fst (Debouncer_run (cardPresent s1) ws), s2)"
      and "cardPresent s2 = snd (Debouncer_run (cardPresent s1) ws)"
      and "isSystemInitialized s2"
    by auto
  with step flag show ?case
    by (simp add: split_beta Let_def)
qed

text \<open>Properties of the table itself.\<close>

lemma Debouncer_run_length: "length (fst (Debouncer_run b ws)) = length ws"
  by (induction ws arbitrary: b) (simp_all add: split_beta Let_def)

lemma Debouncer_run_append:
  "Debouncer_run b (xs @ ys) =
     (fst (Debouncer_run b xs) @ fst (Debouncer_run (snd (Debouncer_run b xs)) ys),
      snd (Debouncer_run (snd (Debouncer_run b xs)) ys))"
  by (induction xs arbitrary: b) (simp_all add: split_beta Let_def)

lemma Debouncer_run_last_absent:
  "ws \<noteq> [] \<Longrightarrow> \<not> newCardPresent (last ws) \<Longrightarrow> \<not> snd (Debouncer_run b ws)"
proof (induction ws arbitrary: b)
  case Nil
  then show ?case by simp
next
  case (Cons w ws)
  show ?case
  proof (cases "ws = []")
    case True
    with Cons.prems show ?thesis
      by (simp add: Debouncer_poll_def)
  next
    case False
    with Cons show ?thesis
      by (simp add: split_beta Let_def)
  qed
qed

lemma Debouncer_run_held:
  "\<forall>w\<in>set ws. newCardPresent w \<Longrightarrow>
   Debouncer_run True ws = (replicate (length ws) NoEvent, True)"
  by (induction ws) (simp_all add: Debouncer_poll_def)

lemma Debouncer_run_arrival:
  assumes "r \<noteq> []" and "\<forall>w\<in>set r. newCardPresent w" and "cardSerialRead (hd r)"
  shows "Debouncer_run False r = (Arrived # replicate (length r - 1) NoEvent, True)"
proof (cases r)
  case Nil
  with assms show ?thesis by simp
next
  case (Cons w ws)
  with assms have "Debouncer_poll False w = (Arrived, True)"
    by (simp add: Debouncer_poll_def)
  moreover from Cons assms have "Debouncer_run True ws = (replicate (length ws) NoEvent, True)"
    by (simp add: Debouncer_run_held)
  ultimately show ?thesis
    using Cons by simp
qed

lemma Debouncer_run_removal:
  "post \<noteq> [] \<Longrightarrow> \<not> newCardPresent (hd post) \<Longrightarrow> fst (Debouncer_run True post) ! 0 = Removed"
  by (cases post) (simp_all add: Debouncer_poll_def split_beta Let_def)

lemma Debouncer_run_nth:
  "fst (Debouncer_run b (pre @ w # post)) ! length pre =
     fst (Debouncer_poll (snd (Debouncer_run b pre)) w)"
  by (simp add: Debouncer_run_append Debouncer_run_length nth_append split_beta Let_def)

lemma take_drop_middle: "length a = m \<Longrightarrow> length b = n \<Longrightarrow> take n (drop m (a @ b @ c)) = b"
  by simp

lemma nth_after_middle: "length a = m \<Longrightarrow> length b = n \<Longrightarrow> (a @ b @ c) ! (m + n) = c ! 0"
  by (simp add: nth_append)

lemma Debouncer_run_unread:
  "\<forall>w\<in>set r. newCardPresent w \<and> \<not> cardSerialRead w \<Longrightarrow>
   Debouncer_run False r = (replicate (length r) NoEvent, False)"
  by (induction r) (simp_all add: Debouncer_poll_def)

lemma Debouncer_run_unread_then_read:
  assumes "\<forall>w\<in>set a. newCardPresent w \<and> \<not> cardSerialRead w"
    and "b \<noteq> []" and "\<forall>w\<in>set b. newCardPresent w" and "cardSerialRead (hd b)"
  shows "Debouncer_run False (a @ b) =
     (replicate (length a) NoEvent @ Arrived # replicate (length b - 1) NoEvent, True)"
  using Debouncer_run_unread [OF assms(1)] Debouncer_run_arrival [OF assms(2,3,4)]
  by (simp add: Debouncer_run_append)

lemma Debouncer_run_first_read:
  assumes "\<forall>w\<in>set r. newCardPresent w" and "\<exists>w\<in>set r. cardSerialRead w"
  shows "Debouncer_run False r =
     (replicate (length (takeWhile (\<lambda>w. \<not> cardSerialRead w) r)) NoEvent @
        Arrived # replicate (length r - length (takeWhile (\<lambda>w. \<not> cardSerialRead w) r) - 1) NoEvent,
      True)"
proof -
  let ?a = "takeWhile (\<lambda>w. \<not> cardSerialRead w) r"
  let ?b = "dropWhile (\<lambda>w. \<not> cardSerialRead w) r"
  from assms(2) have nonempty: "?b \<noteq> []"
    by (auto simp: dropWhile_eq_Nil_conv)
  then have first: "cardSerialRead (hd ?b)"
    using hd_dropWhile [of "\<lambda>w. \<not> cardSerialRead w" r] by simp
  from assms(1) have unread: "\<forall>w\<in>set ?a. newCardPresent w \<and> \<not> cardSerialRead w"
    by (auto dest: set_takeWhileD)
  from assms(1) have present: "\<forall>w\<in>set ?b. newCardPresent w"
    by (auto dest: set_dropWhileD)
  have "length ?a + length ?b = length r"
    by (metis length_append takeWhile_dropWhile_id)
  then have len: "length ?b - 1 = length r - length ?a - 1"
    by arith
  have "Debouncer_run False (?a @ ?b) =
     (replicate (length ?a) NoEvent @ Arrived # replicate (length ?b - 1) NoEvent, True)"
    using unread nonempty present first by (rule Debouncer_run_unread_then_read)
  then show ?thesis
    by (simp only: takeWhile_dropWhile_id len)
qed

lemma Debouncer_run_stays_absent:
  "post \<noteq> [] \<Longrightarrow> \<not> newCardPresent (hd post) \<Longrightarrow> fst (Debouncer_run False post) ! 0 = NoEvent"
  by (cases post) (simp_all add: Debouncer_poll_def split_beta Let_def)

lemma Debouncer_run_segment:
  assumes "ws = pre @ r @ post" and "pre \<noteq> [] \<longrightarrow> \<not> newCardPresent (last pre)"
    and "Debouncer_run False r = (e, b)"
  shows "take (length r) (drop (length pre) (fst (Debouncer_run False ws))) = e \<and>
     (post \<noteq> [] \<longrightarrow>
        fst (Debouncer_run False ws) ! (length pre + length r) = fst (Debouncer_run b post) ! 0)"
proof -
  let ?e1 = "fst (Debouncer_run False pre)"
  let ?e3 = "fst (Debouncer_run b post)"
  have before: "\<not> snd (Debouncer_run False pre)"
  proof (cases "pre = []")
    case True
    then show ?thesis by simp
  next
    case False
    with assms(2) show ?thesis
      by (simp add: Debouncer_run_last_absent)
  qed
  with assms(3) have events: "fst (Debouncer_run False ws) = ?e1 @ e @ ?e3"
    by (simp add: assms(1) Debouncer_run_append)
  have len1: "length ?e1 = length pre"
    by (rule Debouncer_run_length)
  have len2: "length e = length r"
    using Debouncer_run_length [of False r] assms(3) by simp
  have "take (length r) (drop (length pre) (?e1 @ e @ ?e3)) = e"
    using len1 len2 by (rule take_drop_middle)
  moreover have "(?e1 @ e @ ?e3) ! (length pre + length r) = ?e3 ! 0"
    using len1 len2 by (rule nth_after_middle)
  ultimately show ?thesis
    by (simp only: events simp_thms)
qed

lemma Debouncer_run_absent_again:
  assumes "ws = pre @ w # post" and "\<not> newCardPresent w"
    and "pre \<noteq> [] \<longrightarrow> \<not> newCardPresent (last pre)"
  shows "fst (Debouncer_run False ws) ! length pre = NoEvent"
proof -
  have "\<not> snd (Debouncer_run False pre)"
  proof (cases "pre = []")
    case True
    then show ?thesis by simp
  next
    case False
    with assms(3) show ?thesis
      by (simp add: Debouncer_run_last_absent)
  qed
  with assms(1,2) show ?thesis
    by (simp add: Debouncer_run_nth Debouncer_poll_def)
qed

text \<open>
  C5, amended: for every finite sequence of polls, each taken with the service ready,
  starting with no card present, \<^verbatim>\<open>loop\<close> yields one event for each poll, and
  \<^item> over a maximal run of polls that find a card, in which some poll reads the serial,
    there is exactly one \<open>Arrived\<close>, at the first poll of the run that reads the serial,
    and the poll that ends the run yields \<open>Removed\<close>;
  \<^item> over a maximal run of polls that find a card and none of which reads the serial,
    there is no event, and none at the poll that ends the run;
  \<^item> a poll that finds no card, at the start or after another such poll, yields no
    event;
  \<^item> the polls \<open>[false, true (readable), true, true, false]\<close> yield
    \<open>[NoEvent, Arrived, NoEvent, NoEvent, Removed]\<close>.
\<close>

theorem loop_debounces_polls:
  assumes "isSystemInitialized s" and "\<not> cardPresent s" and "\<forall>w\<in>set ws. ready w"
  shows "\<exists>evs s'. run ws s = Some (evs, s') \<and> length evs = length ws \<and>
    (\<forall>pre r post.
        ws = pre @ r @ post \<and> r \<noteq> [] \<and> (\<forall>w\<in>set r. newCardPresent w) \<and>
        (pre \<noteq> [] \<longrightarrow> \<not> newCardPresent (last pre)) \<and>
        (post \<noteq> [] \<longrightarrow> \<not> newCardPresent (hd post)) \<and> (\<exists>w\<in>set r. cardSerialRead w) \<longrightarrow>
        take (length r) (drop (length pre) evs) =
          replicate (length (takeWhile (\<lambda>w. \<not> cardSerialRead w) r)) NoEvent @
          Arrived #
          replicate (length r - length (takeWhile (\<lambda>w. \<not> cardSerialRead w) r) - 1) NoEvent \<and>
        (post \<noteq> [] \<longrightarrow> evs ! (length pre + length r) = Removed)) \<and>
    (\<forall>pre r post.
        ws = pre @ r @ post \<and> r \<noteq> [] \<and> (\<forall>w\<in>set r. newCardPresent w) \<and>
        (pre \<noteq> [] \<longrightarrow> \<not> newCardPresent (last pre)) \<and>
        (post \<noteq> [] \<longrightarrow> \<not> newCardPresent (hd post)) \<and> (\<forall>w\<in>set r. \<not> cardSerialRead w) \<longrightarrow>
        take (length r) (drop (length pre) evs) = replicate (length r) NoEvent \<and>
        (post \<noteq> [] \<longrightarrow> evs ! (length pre + length r) = NoEvent)) \<and>
    (\<forall>pre w post.
        ws = pre @ w # post \<and> \<not> newCardPresent w \<and>
        (pre \<noteq> [] \<longrightarrow> \<not> newCardPresent (last pre)) \<longrightarrow>
        evs ! length pre = NoEvent) \<and>
    (map newCardPresent ws = [False, True, True, True, False] \<and> cardSerialRead (ws ! 1) \<longrightarrow>
        evs = [NoEvent, Arrived, NoEvent, NoEvent, Removed])"
proof -
  let ?evs = "fst (Debouncer_run False ws)"
  from assms run_refines_Debouncer [of s ws] obtain s'
    where result: "run ws s = Some (?evs, s')"
    by auto
  have len: "length ?evs = length ws"
    by (rule Debouncer_run_length)
  have read_runs: "\<forall>pre r post.
        ws = pre @ r @ post \<and> r \<noteq> [] \<and> (\<forall>w\<in>set r. newCardPresent w) \<and>
        (pre \<noteq> [] \<longrightarrow> \<not> newCardPresent (last pre)) \<and>
        (post \<noteq> [] \<longrightarrow> \<not> newCardPresent (hd post)) \<and> (\<exists>w\<in>set r. cardSerialRead w) \<longrightarrow>
        take (length r) (drop (length pre) ?evs) =
          replicate (length (takeWhile (\<lambda>w. \<not> cardSerialRead w) r)) NoEvent @
          Arrived #
          replicate (length r - length (takeWhile (\<lambda>w. \<not> cardSerialRead w) r) - 1) NoEvent \<and>
        (post \<noteq> [] \<longrightarrow> ?evs ! (length pre + length r) = Removed)"
  proof (intro allI impI)
    fix pre r post
    assume run: "ws = pre @ r @ post \<and> r \<noteq> [] \<and> (\<forall>w\<in>set r. newCardPresent w) \<and>
        (pre \<noteq> [] \<longrightarrow> \<not> newCardPresent (last pre)) \<and>
        (post \<noteq> [] \<longrightarrow> \<not> newCardPresent (hd post)) \<and> (\<exists>w\<in>set r. cardSerialRead w)"
    let ?e = "replicate (length (takeWhile (\<lambda>w. \<not> cardSerialRead w) r)) NoEvent @
          Arrived #
          replicate (length r - length (takeWhile (\<lambda>w. \<not> cardSerialRead w) r) - 1) NoEvent"
    from run have during: "Debouncer_run False r = (?e, True)"
      by (simp add: Debouncer_run_first_read)
    from run have "ws = pre @ r @ post" and "pre \<noteq> [] \<longrightarrow> \<not> newCardPresent (last pre)"
      by simp_all
    from Debouncer_run_segment [OF this during] run
    show "take (length r) (drop (length pre) ?evs) = ?e \<and>
        (post \<noteq> [] \<longrightarrow> ?evs ! (length pre + length r) = Removed)"
      by (simp add: Debouncer_run_removal)
  qed
  have unread_runs: "\<forall>pre r post.
        ws = pre @ r @ post \<and> r \<noteq> [] \<and> (\<forall>w\<in>set r. newCardPresent w) \<and>
        (pre \<noteq> [] \<longrightarrow> \<not> newCardPresent (last pre)) \<and>
        (post \<noteq> [] \<longrightarrow> \<not> newCardPresent (hd post)) \<and> (\<forall>w\<in>set r. \<not> cardSerialRead w) \<longrightarrow>
        take (length r) (drop (length pre) ?evs) = replicate (length r) NoEvent \<and>
        (post \<noteq> [] \<longrightarrow> ?evs ! (length pre + length r) = NoEvent)"
  proof (intro allI impI)
    fix pre r post
    assume run: "ws = pre @ r @ post \<and> r \<noteq> [] \<and> (\<forall>w\<in>set r. newCardPresent w) \<and>
        (pre \<noteq> [] \<longrightarrow> \<not> newCardPresent (last pre)) \<and>
        (post \<noteq> [] \<longrightarrow> \<not> newCardPresent (hd post)) \<and> (\<forall>w\<in>set r. \<not> cardSerialRead w)"
    then have during: "Debouncer_run False r = (replicate (length r) NoEvent, False)"
      by (simp add: Debouncer_run_unread)
    from run have "ws = pre @ r @ post" and "pre \<noteq> [] \<longrightarrow> \<not> newCardPresent (last pre)"
      by simp_all
    from Debouncer_run_segment [OF this during] run
    show "take (length r) (drop (length pre) ?evs) = replicate (length r) NoEvent \<and>
        (post \<noteq> [] \<longrightarrow> ?evs ! (length pre + length r) = NoEvent)"
      by (simp add: Debouncer_run_stays_absent)
  qed
  have absent: "\<forall>pre w post.
        ws = pre @ w # post \<and> \<not> newCardPresent w \<and>
        (pre \<noteq> [] \<longrightarrow> \<not> newCardPresent (last pre)) \<longrightarrow>
        ?evs ! length pre = NoEvent"
    using Debouncer_run_absent_again [of ws] by blast
  have scenario: "map newCardPresent ws = [False, True, True, True, False] \<and>
      cardSerialRead (ws ! 1) \<longrightarrow> ?evs = [NoEvent, Arrived, NoEvent, NoEvent, Removed]"
  proof
    assume polls: "map newCardPresent ws = [False, True, True, True, False] \<and>
      cardSerialRead (ws ! 1)"
    then obtain a b c d e where "ws = [a, b, c, d, e]"
      by (auto simp: map_eq_Cons_conv)
    with polls show "?evs = [NoEvent, Arrived, NoEvent, NoEvent, Removed]"
      by (simp add: Debouncer_poll_def)
  qed
  from result len read_runs unread_runs absent scenario show ?thesis
    by blast
qed

theorem loop_debounces_polls_witness:
  "isSystemInitialized classroom \<and> \<not> cardPresent classroom \<and>
   ready online \<and> ready (online\<lparr>newCardPresent := False\<rparr>) \<and>
   ready (online\<lparr>cardSerialRead := False\<rparr>) \<and>
   map_option fst
     (run [online\<lparr>newCardPresent := False\<rparr>, online, online\<lparr>cardSerialRead := False\<rparr>,
           online\<lparr>cardSerialRead := False\<rparr>, online\<lparr>newCardPresent := False\<rparr>] classroom) =
   Some [NoEvent, Arrived, NoEvent, NoEvent, Removed]"
proof -
  let ?ws = "[online\<lparr>newCardPresent := False\<rparr>, online, online\<lparr>cardSerialRead := False\<rparr>,
           online\<lparr>cardSerialRead := False\<rparr>, online\<lparr>newCardPresent := False\<rparr>]"
  have start: "isSystemInitialized classroom" "\<not> cardPresent classroom"
    by (simp_all add: classroom_def)
  have ready: "\<forall>w\<in>set ?ws. ready w"
    by (simp add: online_def)
  have polls: "map newCardPresent ?ws = [False, True, True, True, False] \<and>
      cardSerialRead (?ws ! 1)"
    by (simp add: online_def)
  from loop_debounces_polls [OF start ready] obtain evs s'
    where result: "run ?ws classroom = Some (evs, s')"
      and scenario: "map newCardPresent ?ws = [False, True, True, True, False] \<and>
        cardSerialRead (?ws ! 1) \<longrightarrow> evs = [NoEvent, Arrived, NoEvent, NoEvent, Removed]"
    by (elim exE conjE) (rule that, assumption+)
  from scenario polls have "evs = [NoEvent, Arrived, NoEvent, NoEvent, Removed]"
    by (rule mp)
  with result
  have "\<exists>s'. run ?ws classroom = Some ([NoEvent, Arrived, NoEvent, NoEvent, Removed], s')"
    by simp
  then have "map_option fst (run ?ws classroom) =
      Some [NoEvent, Arrived, NoEvent, NoEvent, Removed]"
    by auto
  with start show ?thesis
    by (simp add: online_def)
qed

text \<open>
  The events do not follow the raw polls alone. A card that is found but whose serial is
  not read, and is then gone, yields no \<open>Removed\<close>; and a run whose first poll does not
  read the serial still yields \<open>Arrived\<close>, at its second poll.
\<close>

theorem unread_card_goes_unnoticed:
  "map newCardPresent [online\<lparr>cardSerialRead := False\<rparr>, online\<lparr>newCardPresent := False\<rparr>] =
     [True, False] \<and>
   map_option fst
     (run [online\<lparr>cardSerialRead := False\<rparr>, online\<lparr>newCardPresent := False\<rparr>] classroom) =
     Some [NoEvent, NoEvent] \<and>
   map newCardPresent
     [online\<lparr>cardSerialRead := False\<rparr>, online, online\<lparr>newCardPresent := False\<rparr>] =
     [True, True, False] \<and>
   \<not> cardSerialRead (online\<lparr>cardSerialRead := False\<rparr>) \<and>
   map_option fst
     (run [online\<lparr>cardSerialRead := False\<rparr>, online, online\<lparr>newCardPresent := False\<rparr>]
        classroom) =
     Some [NoEvent, Arrived, Removed]"
proof -
  let ?short = "[online\<lparr>cardSerialRead := False\<rparr>, online\<lparr>newCardPresent := False\<rparr>]"
  let ?long = "[online\<lparr>cardSerialRead := False\<rparr>, online, online\<lparr>newCardPresent := False\<rparr>]"
  have start: "isSystemInitialized classroom"
    by (simp add: classroom_def)
  have flag: "cardPresent classroom = False"
    by (simp add: classroom_def)
  have polls: "map newCardPresent ?short = [True, False]"
    "map newCardPresent ?long = [True, True, False]"
    "\<not> cardSerialRead (online\<lparr>cardSerialRead := False\<rparr>)"
    by (simp_all add: online_def)
  have ready_short: "\<forall>w\<in>set ?short. ready w"
    by (simp add: online_def)
  have events_short: "fst (Debouncer_run False ?short) = [NoEvent, NoEvent]"
    by (simp add: Debouncer_poll_def online_def)
  from run_refines_Debouncer [OF start ready_short] obtain s1
    where "run ?short classroom = Some (fst (Debouncer_run (cardPresent classroom) ?short), s1)"
    by (elim exE conjE)
  then have short: "map_option fst (run ?short classroom) = Some [NoEvent, NoEvent]"
    by (simp only: flag events_short option.map fst_conv)
  have ready_long: "\<forall>w\<in>set ?long. ready w"
    by (simp add: online_def)
  have events_long: "fst (Debouncer_run False ?long) = [NoEvent, Arrived, Removed]"
    by (simp add: Debouncer_poll_def online_def)
  from run_refines_Debouncer [OF start ready_long] obtain s2
    where "run ?long classroom = Some (fst (Debouncer_run (cardPresent classroom) ?long), s2)"
    by (elim exE conjE)
  then have long: "map_option fst (run ?long classroom) = Some [NoEvent, Arrived, Removed]"
    by (simp only: flag events_long option.map fst_conv)
  from polls short long show ?thesis
    by (intro conjI)
qed

end
